theory Spec2Isabelle
  imports Complex_Main
begin

section \<open>Data model of the proctoring monitor (src/src/App.js)\<close>

text \<open>
  The file src/src/App.js holds two versions of the same React component: the first
  (lines 1-375) measures the lighting before a capture and keeps the labels of the
  forbidden objects, the second (lines 377-690) does neither. Their \<open>verifyFace\<close> and
  \<open>detectPose\<close> are the same text. The definitions below follow the first version; where
  the second differs, its function is given next to it under the suffix \<open>_alt\<close>.

  JavaScript numbers are modelled as \<open>real\<close>: comparisons and arithmetic are the exact
  ones, the rounding of IEEE doubles and NaN are outside the model.
\<close>

text \<open>A normalized landmark position, \<open>{ x, y }\<close>.\<close>

record point =
  px :: real
  py :: real

text \<open>\<open>detection.box\<close> of a face-api detection.\<close>

record box =
  box_x :: real
  box_y :: real
  box_width :: real
  box_height :: real

text \<open>
  One result of the face detector: its bounding box, its descriptor (\<open>None\<close> when the
  field is falsy) and the positions of its landmarks (\<open>None\<close> when
  \<open>landmarks?.positions\<close> is undefined).
\<close>

record face =
  detection_box :: box
  descriptor :: "real list option"
  landmarks :: "point list option"

text \<open>The video element behind \<open>webcamRef.current\<close>.\<close>

record video =
  readyState :: nat
  videoWidth :: real
  videoHeight :: real

text \<open>
  What is loaded when a function runs: the pose landmarker and the object detector
  (React state, null until \<open>initializeModels\<close> finishes), the parameters of the face
  detection net, and the webcam (\<open>None\<close> when \<open>webcamRef.current\<close> is null).
\<close>

record env =
  poseLandmarker :: bool
  objectDetector :: bool
  ssdMobilenetv1_params :: bool
  webcam :: "video option"

text \<open>
  What the perception libraries return on one frame: the nose landmark
  (\<open>landmark[0]\<close>) of every pose in \<open>result.landmarks\<close>, the result of
  \<open>detectAllFaces\<close>, the result of \<open>detectSingleFace\<close>, the RGBA pixels given by
  \<open>getImageData\<close> (\<open>None\<close> when it throws) and, for every detected object,
  \<open>categories[0]?.categoryName\<close>.
\<close>

record observation =
  poses :: "point list"
  faces :: "face list"
  singleFace :: "face option"
  imageData :: "(nat \<times> nat \<times> nat \<times> nat) list option"
  objects :: "string option list"

text \<open>
  The component's state (the \<open>useState\<close> cells that the functions read or write) and
  the two \<open>localStorage\<close> keys.
\<close>

record state =
  capturedFace :: "real list option"
  isFaceCaptured :: bool
  warningMessage :: string
  headMovementStatus :: string
  faceDetected :: bool
  multiplePeopleDetected :: bool
  horizontalMovement :: real
  verticalMovement :: real
  detectedNotAllowedObjects :: "string list"
  faceCaptured :: bool
  unauthorizedPerson :: bool
  referenceNosePosition :: "point option"
  faceLandmarks :: "point list option"

text \<open>
  \<open>captureFace\<close> returns undefined on every path; the tag names the path that was
  taken, with the names of the specification.
\<close>

datatype capture_outcome =
    AlreadyCaptured
  | NoCenteredFace
  | NoWebcam
  | PoorLighting
  | NoFaceDetected
  | Captured "real list option"
  | CaptureThrew

section \<open>Messages\<close>

text \<open>The emoji that start the messages, as their UTF-8 bytes.\<close>

definition siren :: string where
  "siren = [CHR 0xF0, CHR 0x9F, CHR 0x9A, CHR 0xA8]"

definition warning_sign :: string where
  "warning_sign = [CHR 0xE2, CHR 0x9A, CHR 0xA0, CHR 0xEF, CHR 0xB8, CHR 0x8F]"

definition check_mark :: string where
  "check_mark = [CHR 0xE2, CHR 0x9C, CHR 0x85]"

definition cross_mark :: string where
  "cross_mark = [CHR 0xE2, CHR 0x9D, CHR 0x8C]"

definition msg_multiple_people :: string where
  "msg_multiple_people = siren @ '' Critical Warning: More than one person detected!''"

definition msg_unauthorized :: string where
  "msg_unauthorized = siren @ '' Warning: Unauthorized person detected!''"

definition msg_no_face :: string where
  "msg_no_face = warning_sign @ '' Warning: No face detected!''"

text \<open>\<open>Array.prototype.join\<close> on strings.\<close>

fun join :: "string \<Rightarrow> string list \<Rightarrow> string" where
  "join sep [] = []"
| "join sep [w] = w"
| "join sep (w # v # ws) = w @ sep @ join sep (v # ws)"

definition msg_forbidden :: "string list \<Rightarrow> string" where
  "msg_forbidden labels = siren @ '' '' @ join '', '' labels @ '' detected! Please remove it.''"

definition msg_object_alt :: string where
  "msg_object_alt = siren @ '' Object Not Allowed! Please remove it.''"

definition msg_head_movement :: string where
  "msg_head_movement = warning_sign @ '' Head movement detected!''"

definition msg_align :: string where
  "msg_align = warning_sign @ '' Align your face in the center before capturing!''"

definition msg_low_light :: string where
  "msg_low_light = warning_sign @ '' Low lighting detected! Try increasing brightness.''"

definition msg_high_light :: string where
  "msg_high_light = warning_sign @ '' Too much brightness! Move to a less illuminated area.''"

definition msg_captured :: string where
  "msg_captured = check_mark @ '' Face captured successfully!''"

definition msg_improve_lighting :: string where
  "msg_improve_lighting = warning_sign @ '' Face not detected! Try improving lighting.''"

definition msg_not_centered :: string where
  "msg_not_centered = warning_sign @ '' Face not centered. Please align properly.''"

definition msg_not_visible :: string where
  "msg_not_visible = cross_mark @ '' Face not detected! Ensure your face is visible and clear.''"

definition msg_try_again_alt :: string where
  "msg_try_again_alt = cross_mark @ '' No face detected. Please try again.''"

section \<open>detectPose\<close>

text \<open>
  The test of lines 257-263: the nose is nearer than the tolerance to the centre of the
  frame on both axes.
\<close>

definition centerX :: real where "centerX = 0.5"
definition centerY :: real where "centerY = 0.5"
definition tolerance :: real where "tolerance = 0.08"

definition noseCentered :: "point \<Rightarrow> bool" where
  "noseCentered nose \<longleftrightarrow>
     \<bar>px nose - centerX\<bar> < tolerance \<and> \<bar>py nose - centerY\<bar> < tolerance"

text \<open>
  The local variables of \<open>detectPose\<close> that the \<open>forEach\<close> callback assigns, together
  with the stored reference position that it reads and writes.
\<close>

record pose_vars =
  isFaceCentered :: bool
  stored_reference :: "point option"
  horizontal :: real
  vertical :: real

text \<open>One call of the \<open>forEach\<close> callback (lines 254-278).\<close>

definition pose_step :: "pose_vars \<Rightarrow> point \<Rightarrow> pose_vars" where
  "pose_step a nose =
     (let centered = noseCentered nose;
          refresh = (stored_reference a = None \<or> centered);
          referenceNose = (case stored_reference a of
                             None \<Rightarrow> nose
                           | Some r \<Rightarrow> if centered then nose else r)
      in \<lparr> isFaceCentered = centered,
           stored_reference = (if refresh then Some referenceNose else stored_reference a),
           horizontal = \<bar>px nose - px referenceNose\<bar>,
           vertical = \<bar>py nose - py referenceNose\<bar> \<rparr>)"

text \<open>The guard of line 215.\<close>

definition pose_ready :: "env \<Rightarrow> bool" where
  "pose_ready e \<longleftrightarrow>
     poseLandmarker e \<and> (case webcam e of None \<Rightarrow> False | Some v \<Rightarrow> readyState v = 4)"

text \<open>The locals after the loop, from their initial values of lines 241-245.\<close>

definition pose_loop :: "point option \<Rightarrow> point list \<Rightarrow> pose_vars" where
  "pose_loop ref ps =
     foldl pose_step
       \<lparr> isFaceCentered = False, stored_reference = ref, horizontal = 0, vertical = 0 \<rparr> ps"

text \<open>
  \<open>detectPose\<close>: the value its promise resolves to (\<open>None\<close> is undefined, when the
  guard fails) and the state after its four setters and its writes to the store.
\<close>

definition detectPose :: "env \<Rightarrow> observation \<Rightarrow> state \<Rightarrow> bool option \<times> state" where
  "detectPose e ob s =
     (if pose_ready e then
        let a = pose_loop (referenceNosePosition s) (poses ob)
        in (Some (isFaceCentered a),
            s\<lparr> faceDetected := (poses ob \<noteq> []),
               multiplePeopleDetected := (length (poses ob) > 1),
               horizontalMovement := horizontal a,
               verticalMovement := vertical a,
               referenceNosePosition := stored_reference a \<rparr>)
      else (None, s))"

section \<open>getBrightness\<close>

text \<open>
  The mean over the pixels of \<open>(r + g + b) / 3\<close>; 100 when reading the pixels throws
  (lines 116-146). The canvas is never empty (its sides default to 640 and 480), so the
  division by the number of pixels is not a division by zero. The mean is the exact one:
  the source adds the thirds in doubles, and on pixels whose exact mean is 50 or 200 its
  rounded sum falls just outside the band that \<open>captureFace\<close> accepts.
\<close>

definition getBrightness :: "(nat \<times> nat \<times> nat \<times> nat) list option \<Rightarrow> real" where
  "getBrightness img =
     (case img of
        None \<Rightarrow> 100
      | Some data \<Rightarrow>
          foldl (\<lambda>totalBrightness (r, g, b, a). totalBrightness + (real r + real g + real b) / 3)
            0 data / real (length data))"

section \<open>captureFace\<close>

definition store_capture :: "face \<Rightarrow> state \<Rightarrow> state" where
  "store_capture f s =
     s\<lparr> capturedFace := descriptor f, isFaceCaptured := True, faceCaptured := True \<rparr>"

text \<open>\<open>captureFace\<close> of the first version (lines 65-113).\<close>

definition captureFace :: "env \<Rightarrow> observation \<Rightarrow> state \<Rightarrow> capture_outcome \<times> state" where
  "captureFace e ob s =
     (if faceCaptured s then (AlreadyCaptured, s)
      else
        let (isCentered, s1) = detectPose e ob s in
        if isCentered \<noteq> Some True then
          (NoCenteredFace, s1\<lparr> headMovementStatus := msg_align \<rparr>)
        else if webcam e = None then (NoWebcam, s1)
        else
          let brightness = getBrightness (imageData ob) in
          if brightness < 50 then (PoorLighting, s1\<lparr> headMovementStatus := msg_low_light \<rparr>)
          else if brightness > 200 then
            (PoorLighting, s1\<lparr> headMovementStatus := msg_high_light \<rparr>)
          else
            (case singleFace ob of
               Some f \<Rightarrow>
                 (Captured (descriptor f),
                  (store_capture f s1)
                    \<lparr> faceLandmarks := Some (case landmarks f of None \<Rightarrow> [] | Some l \<Rightarrow> l),
                      headMovementStatus := msg_captured \<rparr>)
             | None \<Rightarrow>
                 (NoFaceDetected,
                  s1\<lparr> headMovementStatus :=
                        (if brightness < 70 then msg_improve_lighting
                         else if isCentered \<noteq> Some True then msg_not_centered
                         else msg_not_visible) \<rparr>)))"

text \<open>
  \<open>captureFace\<close> of the second version (lines 439-467): no lighting is measured, and
  the landmark positions are read without \<open>?.\<close>, so that their absence throws after the
  three setters have run.
\<close>

definition captureFace_alt :: "env \<Rightarrow> observation \<Rightarrow> state \<Rightarrow> capture_outcome \<times> state" where
  "captureFace_alt e ob s =
     (if faceCaptured s then (AlreadyCaptured, s)
      else
        let (isCentered, s1) = detectPose e ob s in
        if isCentered \<noteq> Some True then
          (NoCenteredFace, s1\<lparr> headMovementStatus := msg_align \<rparr>)
        else if webcam e = None then (NoWebcam, s1)
        else
          (case singleFace ob of
             Some f \<Rightarrow>
               (case landmarks f of
                  None \<Rightarrow> (CaptureThrew, store_capture f s1)
                | Some l \<Rightarrow>
                    (Captured (descriptor f),
                     (store_capture f s1)
                       \<lparr> faceLandmarks := Some l, headMovementStatus := msg_captured \<rparr>))
           | None \<Rightarrow> (NoFaceDetected, s1\<lparr> headMovementStatus := msg_try_again_alt \<rparr>)))"

section \<open>verifyFace\<close>

text \<open>
  \<open>faceapi.euclideanDistance\<close> of the face-api library: it throws (\<open>None\<close>) on arrays
  of different lengths, and otherwise is the square root of the sum of the squared
  differences.
\<close>

definition euclideanDistance :: "real list \<Rightarrow> real list \<Rightarrow> real option" where
  "euclideanDistance arr1 arr2 =
     (if length arr1 \<noteq> length arr2 then None
      else Some (sqrt (foldl (\<lambda>res diff. res + diff ^ 2) 0
                        (map (\<lambda>(val, w). val - w) (zip arr1 arr2)))))"

text \<open>The sum that lines 187-190 compare: how far the middle of the box is from the
  middle of the frame, added over the two axes.\<close>

definition centerOffset :: "video \<Rightarrow> face \<Rightarrow> real" where
  "centerOffset v f =
     \<bar>box_x (detection_box f) + box_width (detection_box f) / 2 - videoWidth v / 2\<bar> +
     \<bar>box_y (detection_box f) + box_height (detection_box f) / 2 - videoHeight v / 2\<bar>"

definition closer :: "video \<Rightarrow> face \<Rightarrow> face \<Rightarrow> face" where
  "closer v prev current = (if centerOffset v current < centerOffset v prev then current else prev)"

text \<open>
  Lines 184-193: \<open>detections[0]\<close>, replaced by the result of \<open>reduce\<close> (without an
  initial value) when there is more than one detection. \<open>None\<close> is the undefined
  \<open>detections[0]\<close> of an empty array.
\<close>

definition centeredFace :: "video \<Rightarrow> face list \<Rightarrow> face option" where
  "centeredFace v detections =
     (case detections of
        [] \<Rightarrow> None
      | d # ds \<Rightarrow> Some (if length detections > 1 then foldl (closer v) d ds else d))"

text \<open>
  Lines 196-207, on the face that was selected: without a descriptor \<open>faceDetected\<close>
  is set to false and the function returns; with one, \<open>faceDetected\<close> is set to true
  and \<open>unauthorizedPerson\<close> to the comparison of the distance with 0.6. When
  \<open>euclideanDistance\<close> throws, the \<open>catch\<close> block logs the error and the first setter
  has already run.
\<close>

definition compareFace :: "real list \<Rightarrow> face \<Rightarrow> state \<Rightarrow> state" where
  "compareFace captured cf s =
     (case descriptor cf of
        None \<Rightarrow> s\<lparr> faceDetected := False \<rparr>
      | Some d \<Rightarrow>
          (case euclideanDistance captured d of
             None \<Rightarrow> s\<lparr> faceDetected := True \<rparr>
           | Some distance \<Rightarrow>
               s\<lparr> faceDetected := True, unauthorizedPerson := (distance > 0.6) \<rparr>))"

text \<open>
  \<open>verifyFace\<close> (lines 150-212). Reading \<open>.descriptor\<close> of the undefined
  \<open>centeredFace\<close> of an empty array throws a TypeError inside the \<open>try\<close> block, whose
  \<open>catch\<close> logs it: no setter runs.
\<close>

definition verifyFace :: "env \<Rightarrow> observation \<Rightarrow> state \<Rightarrow> state" where
  "verifyFace e ob s =
     (case (capturedFace s, webcam e) of
        (Some captured, Some v) \<Rightarrow>
          if \<not> ssdMobilenetv1_params e then s
          else if readyState v \<noteq> 4 then s
          else
            (case centeredFace v (faces ob) of
               None \<Rightarrow> s
             | Some cf \<Rightarrow> compareFace captured cf s)
      | _ \<Rightarrow> s)"

section \<open>detectObjects\<close>

definition notAllowedClasses :: "string list" where
  "notAllowedClasses =
     [''cell phone'', ''tablet'', ''book'', ''remote'', ''backpack'', ''mouse'', ''tv'',
      ''keyboard'', ''laptop'']"

text \<open>\<open>toLowerCase\<close> on the ASCII letters, which the category names consist of.\<close>

definition toLowerCase :: "string \<Rightarrow> string" where
  "toLowerCase w =
     map (\<lambda>c. if 65 \<le> (of_char c :: nat) \<and> (of_char c :: nat) \<le> 90
               then char_of ((of_char c :: nat) + 32) else c) w"

text \<open>\<open>detectObjects\<close> of the first version (lines 296-311).\<close>

definition detectObjects :: "env \<Rightarrow> observation \<Rightarrow> state \<Rightarrow> state" where
  "detectObjects e ob s =
     (if objectDetector e \<and> (case webcam e of None \<Rightarrow> False | Some v \<Rightarrow> readyState v = 4)
      then s\<lparr> detectedNotAllowedObjects :=
                 concat (map (\<lambda>c. case c of
                                     None \<Rightarrow> []
                                   | Some n \<Rightarrow> if toLowerCase n \<in> set notAllowedClasses
                                              then [toLowerCase n] else [])
                             (objects ob)) \<rparr>
      else s)"

section \<open>getHighestPriorityWarning and the tick\<close>

text \<open>\<open>getHighestPriorityWarning\<close> of the first version (lines 314-323).\<close>

definition getHighestPriorityWarning :: "state \<Rightarrow> string" where
  "getHighestPriorityWarning s =
     (if multiplePeopleDetected s then msg_multiple_people
      else if unauthorizedPerson s then msg_unauthorized
      else if \<not> faceDetected s then msg_no_face
      else if length (detectedNotAllowedObjects s) > 0
        then msg_forbidden (detectedNotAllowedObjects s)
      else if horizontalMovement s > 0.02 \<or> verticalMovement s > 0.02 then msg_head_movement
      else [])"

text \<open>
  The callback of \<open>setInterval\<close> (lines 326-336). It calls \<open>detectPose\<close>, and, once a face
  is captured, \<open>verifyFace\<close> and \<open>detectObjects\<close>, none of them awaited, and sets the
  warning from the state as it is when the callback starts. Every setter of the three
  functions runs after the first \<open>await\<close> of its function; the model applies them in the
  order of the calls.
\<close>

definition tick :: "env \<Rightarrow> observation \<Rightarrow> state \<Rightarrow> state" where
  "tick e ob s =
     (let s1 = snd (detectPose e ob s) in
      if isFaceCaptured s
      then (detectObjects e ob (verifyFace e ob s1))
             \<lparr> warningMessage := getHighestPriorityWarning s \<rparr>
      else s1)"

section \<open>Overlapping capture requests\<close>

text \<open>
  \<open>captureFace\<close> is an async function. When called it tests \<open>faceCaptured\<close> (line 66)
  and runs \<open>detectPose\<close> (line 68), whose promise resolves 300 ms later; everything from
  line 69 on runs when the call resumes, on the state of that moment. \<open>captureFace_call\<close>
  is the first part: \<open>None\<close> when the call has returned at line 66, otherwise the value
  that \<open>detectPose\<close> resolves to. \<open>captureFace_resume\<close> is the second part.
\<close>

definition captureFace_call :: "env \<Rightarrow> observation \<Rightarrow> state \<Rightarrow> bool option option \<times> state" where
  "captureFace_call e ob s =
     (if faceCaptured s then (None, s)
      else let (isCentered, s1) = detectPose e ob s in (Some isCentered, s1))"

definition captureFace_resume ::
  "env \<Rightarrow> observation \<Rightarrow> bool option option \<Rightarrow> state \<Rightarrow> capture_outcome \<times> state" where
  "captureFace_resume e ob waiting s1 =
     (case waiting of
        None \<Rightarrow> (AlreadyCaptured, s1)
      | Some isCentered \<Rightarrow>
          if isCentered \<noteq> Some True then
            (NoCenteredFace, s1\<lparr> headMovementStatus := msg_align \<rparr>)
          else if webcam e = None then (NoWebcam, s1)
          else
            let brightness = getBrightness (imageData ob) in
            if brightness < 50 then (PoorLighting, s1\<lparr> headMovementStatus := msg_low_light \<rparr>)
            else if brightness > 200 then
              (PoorLighting, s1\<lparr> headMovementStatus := msg_high_light \<rparr>)
            else
              (case singleFace ob of
                 Some f \<Rightarrow>
                   (Captured (descriptor f),
                    (store_capture f s1)
                      \<lparr> faceLandmarks := Some (case landmarks f of None \<Rightarrow> [] | Some l \<Rightarrow> l),
                        headMovementStatus := msg_captured \<rparr>)
               | None \<Rightarrow>
                   (NoFaceDetected,
                    s1\<lparr> headMovementStatus :=
                          (if brightness < 70 then msg_improve_lighting
                           else if isCentered \<noteq> Some True then msg_not_centered
                           else msg_not_visible) \<rparr>)))"

text \<open>
  Two presses of the capture button less than 300 ms apart: the second call starts
  while the first waits for its \<open>detectPose\<close>, then the two calls resume in the order of
  the presses. The button is disabled by \<open>isFaceCaptured\<close> only (line 359), which no
  call has set before it resumes.
\<close>

definition two_presses ::
  "env \<Rightarrow> observation \<Rightarrow> observation \<Rightarrow> state \<Rightarrow> (capture_outcome \<times> capture_outcome) \<times> state" where
  "two_presses e ob1 ob2 s =
     (let (w1, sa) = captureFace_call e ob1 s;
          (w2, sb) = captureFace_call e ob2 sa;
          (r1, sc) = captureFace_resume e ob1 w1 sb;
          (r2, sd) = captureFace_resume e ob2 w2 sc
      in ((r1, r2), sd))"

section \<open>Initial state and the specification's priority table\<close>

text \<open>The initial values of the \<open>useState\<close> cells (lines 10-23), with an empty store.\<close>

definition initial_state :: state where
  "initial_state =
     \<lparr> capturedFace = None, isFaceCaptured = False, warningMessage = [],
       headMovementStatus = [], faceDetected = False, multiplePeopleDetected = False,
       horizontalMovement = 0, verticalMovement = 0, detectedNotAllowedObjects = [],
       faceCaptured = False, unauthorizedPerson = False, referenceNosePosition = None,
       faceLandmarks = None \<rparr>"

text \<open>
  The Alert Prioritizer as the specification words it (section 4.4): a table of
  conditions on the fields of the WarningState, read from the top, the first row whose
  condition holds giving the message and the empty string when none does.
\<close>

fun first_match :: "(bool \<times> string) list \<Rightarrow> string" where
  "first_match [] = []"
| "first_match ((cond, msg) # rows) = (if cond then msg else first_match rows)"

definition alert_table ::
  "bool \<Rightarrow> bool \<Rightarrow> bool \<Rightarrow> string list \<Rightarrow> real \<Rightarrow> real \<Rightarrow> (bool \<times> string) list" where
  "alert_table multiplePeople unauthorized faceSeen forbiddenObjects horizontalDrift verticalDrift =
     [(multiplePeople, msg_multiple_people),
      (unauthorized, msg_unauthorized),
      (\<not> faceSeen, msg_no_face),
      (forbiddenObjects \<noteq> [], msg_forbidden forbiddenObjects),
      (horizontalDrift > 0.02 \<or> verticalDrift > 0.02, msg_head_movement)]"

section \<open>Concrete frames\<close>

text \<open>Everything loaded, a 640 by 480 video that is ready.\<close>

definition ready_env :: env where
  "ready_env =
     \<lparr> poseLandmarker = True, objectDetector = True, ssdMobilenetv1_params = True,
       webcam = Some \<lparr> readyState = 4, videoWidth = 640, videoHeight = 480 \<rparr> \<rparr>"

definition nose_center :: point where
  "nose_center = \<lparr> px = 0.5, py = 0.5 \<rparr>"

definition nose_corner :: point where
  "nose_corner = \<lparr> px = 0.9, py = 0.9 \<rparr>"

text \<open>A face in the middle of the frame with the given descriptor.\<close>

definition face_with :: "real list option \<Rightarrow> face" where
  "face_with d =
     \<lparr> detection_box = \<lparr> box_x = 270, box_y = 190, box_width = 100, box_height = 100 \<rparr>,
       descriptor = d, landmarks = Some [] \<rparr>"

text \<open>The same face moved to the right by \<open>dx\<close> pixels.\<close>

definition face_offset :: "real \<Rightarrow> real list option \<Rightarrow> face" where
  "face_offset dx d =
     \<lparr> detection_box = \<lparr> box_x = 270 + dx, box_y = 190, box_width = 100, box_height = 100 \<rparr>,
       descriptor = d, landmarks = Some [] \<rparr>"

text \<open>A frame with the given poses and faces, uniformly grey pixels and no object.\<close>

definition frame :: "point list \<Rightarrow> face list \<Rightarrow> nat \<Rightarrow> observation" where
  "frame ps fs grey =
     \<lparr> poses = ps, faces = fs, singleFace = (case fs of [] \<Rightarrow> None | f # _ \<Rightarrow> Some f),
       imageData = Some [(grey, grey, grey, 255)], objects = [] \<rparr>"

text \<open>The state after a capture of the descriptor \<open>[0]\<close>.\<close>

definition monitoring_state :: state where
  "monitoring_state =
     initial_state\<lparr> capturedFace := Some [0], isFaceCaptured := True, faceCaptured := True \<rparr>"

section \<open>The loop of detectPose\<close>

lemma centered_iff:
  "noseCentered nose \<longleftrightarrow> 0.42 < px nose \<and> px nose < 0.58 \<and> 0.42 < py nose \<and> py nose < 0.58"
  unfolding noseCentered_def centerX_def centerY_def tolerance_def
  by (simp add: abs_less_iff) argo

lemma pose_loop_snoc: "pose_loop r (ps @ [p]) = pose_step (pose_loop r ps) p"
  by (simp add: pose_loop_def)

text \<open>The flag is assigned by every call of the callback, so the last pose decides.\<close>

lemma isFaceCentered_last:
  "ps \<noteq> [] \<Longrightarrow> isFaceCentered (pose_loop r ps) = noseCentered (last ps)"
  by (induction ps rule: rev_induct) (simp_all add: pose_loop_snoc pose_step_def Let_def)

lemma stored_reference_step:
  "stored_reference (pose_step a p) =
     (if noseCentered p then Some p
      else case stored_reference a of None \<Rightarrow> Some p | Some q \<Rightarrow> Some q)"
  by (simp add: pose_step_def Let_def split: option.split)

text \<open>
  The stored reference after the loop: the last centered nose when there is one;
  otherwise the reference that was stored, or the first nose when none was.
\<close>

lemma stored_reference_loop:
  "stored_reference (pose_loop r ps) =
     (if \<exists>p \<in> set ps. noseCentered p then Some (last (filter noseCentered ps))
      else case r of None \<Rightarrow> (case ps of [] \<Rightarrow> None | p # _ \<Rightarrow> Some p) | Some q \<Rightarrow> Some q)"
proof (induction ps rule: rev_induct)
  case Nil
  show ?case by (simp add: pose_loop_def split: option.split)
next
  case (snoc p ps)
  show ?case
  proof (cases "noseCentered p")
    case True
    then show ?thesis
      by (simp add: pose_loop_snoc stored_reference_step)
  next
    case False
    with snoc show ?thesis
      by (auto simp add: pose_loop_snoc stored_reference_step split: option.split list.split)
  qed
qed

lemma ready_env_pose_ready: "pose_ready ready_env"
  by (simp add: pose_ready_def ready_env_def)

lemma nose_center_centered: "noseCentered nose_center"
  by (simp add: centered_iff nose_center_def)

lemma nose_corner_not_centered: "\<not> noseCentered nose_corner"
  by (simp add: centered_iff nose_corner_def)

section \<open>What the functions leave alone\<close>

lemma detectPose_keeps:
  "capturedFace (snd (detectPose e ob s)) = capturedFace s"
  "faceCaptured (snd (detectPose e ob s)) = faceCaptured s"
  "isFaceCaptured (snd (detectPose e ob s)) = isFaceCaptured s"
  "faceLandmarks (snd (detectPose e ob s)) = faceLandmarks s"
  "unauthorizedPerson (snd (detectPose e ob s)) = unauthorizedPerson s"
  by (simp_all add: detectPose_def Let_def)

lemma compareFace_keeps:
  "capturedFace (compareFace c f s) = capturedFace s"
  "faceCaptured (compareFace c f s) = faceCaptured s"
  "isFaceCaptured (compareFace c f s) = isFaceCaptured s"
  "faceLandmarks (compareFace c f s) = faceLandmarks s"
  by (simp_all add: compareFace_def split: option.split)

lemma verifyFace_keeps:
  "capturedFace (verifyFace e ob s) = capturedFace s"
  "faceCaptured (verifyFace e ob s) = faceCaptured s"
  "isFaceCaptured (verifyFace e ob s) = isFaceCaptured s"
  "faceLandmarks (verifyFace e ob s) = faceLandmarks s"
  by (simp_all add: verifyFace_def compareFace_keeps split: option.split)

lemma detectObjects_keeps:
  "capturedFace (detectObjects e ob s) = capturedFace s"
  "faceCaptured (detectObjects e ob s) = faceCaptured s"
  "isFaceCaptured (detectObjects e ob s) = isFaceCaptured s"
  "faceLandmarks (detectObjects e ob s) = faceLandmarks s"
  by (simp_all add: detectObjects_def)

lemma tick_keeps:
  "capturedFace (tick e ob s) = capturedFace s"
  "faceCaptured (tick e ob s) = faceCaptured s"
  "isFaceCaptured (tick e ob s) = isFaceCaptured s"
  "faceLandmarks (tick e ob s) = faceLandmarks s"
  by (simp_all add: tick_def Let_def detectPose_keeps verifyFace_keeps detectObjects_keeps)

section \<open>Capture requests\<close>

lemma captureFace_already: "faceCaptured s \<Longrightarrow> captureFace e ob s = (AlreadyCaptured, s)"
  by (simp add: captureFace_def)

lemma captureFace_cases:
  assumes "captureFace e ob s = (r, s')"
  shows "case r of
           Captured d \<Rightarrow> \<not> faceCaptured s \<and> faceCaptured s' \<and> capturedFace s' = d
         | _ \<Rightarrow> faceCaptured s' = faceCaptured s \<and> capturedFace s' = capturedFace s"
proof -
  obtain c s1 where dp: "detectPose e ob s = (c, s1)"
    by (cases "detectPose e ob s")
  have k: "capturedFace s1 = capturedFace s" "faceCaptured s1 = faceCaptured s"
    using detectPose_keeps(1,2) [of e ob s] dp by simp_all
  from assms k show ?thesis
    by (auto simp add: captureFace_def Let_def store_capture_def dp
        split: if_splits option.splits)
qed

text \<open>A call that is not overlapped by another is the two parts one after the other.\<close>

lemma captureFace_phases:
  "captureFace e ob s =
     captureFace_resume e ob (fst (captureFace_call e ob s)) (snd (captureFace_call e ob s))"
proof (cases "faceCaptured s")
  case True
  then show ?thesis
    by (simp add: captureFace_def captureFace_call_def captureFace_resume_def)
next
  case False
  obtain c s1 where dp: "detectPose e ob s = (c, s1)"
    by (cases "detectPose e ob s")
  from False show ?thesis
    by (simp add: captureFace_def captureFace_call_def captureFace_resume_def dp)
qed

text \<open>A request made after a capture has completed returns at line 66.\<close>

lemma captureFace_after_capture:
  assumes "captureFace e ob s = (Captured d, s')"
  shows "captureFace e2 ob2 s' = (AlreadyCaptured, s') \<and> capturedFace s' = d"
  using captureFace_cases [OF assms] by (simp add: captureFace_already)

lemma getBrightness_grey: "getBrightness (imageData (frame ps fs g)) = real g"
  by (simp add: getBrightness_def frame_def)

lemma detectPose_center:
  "detectPose ready_env (frame [nose_center] fs g) s =
     (Some True, s\<lparr> faceDetected := True, multiplePeopleDetected := False,
                    horizontalMovement := 0, verticalMovement := 0,
                    referenceNosePosition := Some nose_center \<rparr>)"
  by (simp add: detectPose_def ready_env_pose_ready frame_def pose_loop_def pose_step_def
      Let_def nose_center_centered split: option.split)

lemma capture_example:
  "captureFace ready_env (frame [nose_center] [face_with (Some [1])] 100) initial_state =
     (Captured (Some [1]),
      initial_state\<lparr> capturedFace := Some [1], isFaceCaptured := True, faceCaptured := True,
         faceDetected := True, referenceNosePosition := Some nose_center,
         faceLandmarks := Some [], headMovementStatus := msg_captured \<rparr>)"
  unfolding captureFace_def detectPose_center getBrightness_grey
  by (simp add: store_capture_def initial_state_def ready_env_def frame_def face_with_def)

lemma detectPose_not_centered:
  assumes "poses ob = [] \<or> \<not> noseCentered (last (poses ob))"
  shows "fst (detectPose e ob s) \<noteq> Some True"
proof (cases "poses ob = []")
  case True
  then show ?thesis by (simp add: detectPose_def Let_def pose_loop_def)
next
  case False
  with assms show ?thesis by (simp add: detectPose_def Let_def isFaceCentered_last)
qed

text \<open>
  The second version of \<open>captureFace\<close> does not read the pixels: it captures in a frame
  that the first version rejects as too dark.
\<close>

lemma captureFace_alt_no_gate:
  "captureFace_alt e (ob\<lparr> imageData := img \<rparr>) s = captureFace_alt e ob s"
  by (simp add: captureFace_alt_def detectPose_def Let_def)

lemma captureFace_alt_dark:
  "fst (captureFace_alt ready_env (frame [nose_center] [face_with (Some [1])] 10) initial_state)
     = Captured (Some [1])"
  unfolding captureFace_alt_def detectPose_center
  by (simp add: ready_env_def initial_state_def frame_def face_with_def store_capture_def)

section \<open>Distances\<close>

text \<open>The loop of \<open>euclideanDistance\<close> adds up the squares of the differences.\<close>

lemma foldl_squares:
  "foldl (\<lambda>res diff. res + diff ^ 2) acc xs = acc + (\<Sum>x\<leftarrow>xs. x ^ 2)" for acc :: real
  by (induction xs arbitrary: acc) simp_all

lemma euclideanDistance_sum:
  "length arr1 = length arr2 \<Longrightarrow>
     euclideanDistance arr1 arr2 = Some (sqrt (\<Sum>(x, y)\<leftarrow>zip arr1 arr2. (x - y) ^ 2))"
  by (simp add: euclideanDistance_def foldl_squares comp_def case_prod_unfold)

lemma euclideanDistance_single: "euclideanDistance [a] [b] = Some \<bar>a - b\<bar>"
  by (simp add: euclideanDistance_def)

lemma euclideanDistance_nonneg: "euclideanDistance a b = Some d \<Longrightarrow> 0 \<le> d"
proof -
  have "0 \<le> foldl (\<lambda>res diff. res + diff ^ 2) acc xs" if "0 \<le> acc" for acc :: real and xs
    using that by (induction xs arbitrary: acc) simp_all
  then show "euclideanDistance a b = Some d \<Longrightarrow> 0 \<le> d"
    by (auto simp add: euclideanDistance_def split: if_splits)
qed

lemma centeredFace_single: "centeredFace v [f] = Some f"
  by (simp add: centeredFace_def)

section \<open>The face nearest to the middle\<close>

lemma foldl_closer_mem: "foldl (closer v) d ds \<in> set (d # ds)"
  by (induction ds arbitrary: d) (auto simp add: closer_def)

lemma foldl_closer_le_start: "centerOffset v (foldl (closer v) d ds) \<le> centerOffset v d"
proof (induction ds arbitrary: d)
  case Nil
  show ?case by simp
next
  case (Cons a ds)
  from Cons [of "closer v d a"] show ?case
    by (simp add: closer_def split: if_splits)
qed

lemma foldl_closer_least:
  "g \<in> set (d # ds) \<Longrightarrow> centerOffset v (foldl (closer v) d ds) \<le> centerOffset v g"
proof (induction ds arbitrary: d)
  case Nil
  then show ?case by simp
next
  case (Cons a ds)
  show ?case
  proof (cases "g \<in> set (closer v d a # ds)")
    case True
    with Cons.IH [of "closer v d a"] show ?thesis by simp
  next
    case False
    with Cons.prems have g: "g = d \<or> g = a" by auto
    have "centerOffset v (closer v d a) \<le> centerOffset v g"
      using g by (auto simp add: closer_def)
    with foldl_closer_le_start [of v "closer v d a" ds] show ?thesis by simp
  qed
qed

lemma centeredFace_least:
  assumes "ds \<noteq> []"
  shows "\<exists>f. centeredFace v ds = Some f \<and> f \<in> set ds \<and>
             (\<forall>g \<in> set ds. centerOffset v f \<le> centerOffset v g)"
proof (cases ds)
  case Nil
  with assms show ?thesis by simp
next
  case (Cons d rest)
  have e: "centeredFace v ds = Some (foldl (closer v) d rest)"
    using Cons by (cases rest) (simp_all add: centeredFace_def)
  from foldl_closer_mem [of v d rest] foldl_closer_least [of _ d rest v] e Cons
  show ?thesis by simp
qed

lemma centerOffset_face_offset:
  "centerOffset \<lparr> readyState = 4, videoWidth = 640, videoHeight = 480 \<rparr> (face_offset dx d) = \<bar>dx\<bar>"
  by (simp add: centerOffset_def face_offset_def)

section \<open>Identity verification and the tick\<close>

lemma compareFace_no_descriptor:
  "descriptor f = None \<Longrightarrow> compareFace captured f s = s\<lparr> faceDetected := False \<rparr>"
  by (simp add: compareFace_def)

lemma verifyFace_single:
  assumes "capturedFace s = Some captured" and "webcam e = Some v"
    and "ssdMobilenetv1_params e" and "readyState v = 4" and "faces ob = [f]"
  shows "verifyFace e ob s = compareFace captured f s"
  using assms by (simp add: verifyFace_def centeredFace_def)

lemma verifyFace_zero_faces: "faces ob = [] \<Longrightarrow> verifyFace e ob s = s"
  by (simp add: verifyFace_def centeredFace_def split: option.split)

lemma monitoring_guards:
  "capturedFace (monitoring_state\<lparr> unauthorizedPerson := u \<rparr>) = Some [0]"
  "webcam ready_env = Some \<lparr> readyState = 4, videoWidth = 640, videoHeight = 480 \<rparr>"
  "ssdMobilenetv1_params ready_env"
  "readyState \<lparr> readyState = 4, videoWidth = 640, videoHeight = 480 \<rparr> = 4"
  by (simp_all add: monitoring_state_def ready_env_def)

lemma faces_frame: "faces (frame ps fs g) = fs"
  by (simp add: frame_def)

lemma descriptor_face_with: "descriptor (face_with d) = d"
  by (simp add: face_with_def)

lemma verifyFace_idle:
  "capturedFace s = None \<or> \<not> ssdMobilenetv1_params e \<Longrightarrow> verifyFace e ob s = s"
  by (auto simp add: verifyFace_def split: option.split)

lemma verifyFace_selected:
  assumes "capturedFace s = Some captured" and "webcam e = Some v"
    and "ssdMobilenetv1_params e" and "readyState v = 4"
    and "centeredFace v (faces ob) = Some f"
  shows "verifyFace e ob s = compareFace captured f s"
  using assms by (simp add: verifyFace_def)

lemma compareFace_faceDetected:
  "faceDetected (compareFace captured f s) = (descriptor f \<noteq> None)"
  by (simp add: compareFace_def split: option.split)

lemma detectPose_faceDetected:
  "pose_ready e \<Longrightarrow> faceDetected (snd (detectPose e ob s)) = (poses ob \<noteq> [])"
  by (simp add: detectPose_def Let_def)

lemma detectObjects_faceDetected: "faceDetected (detectObjects e ob s) = faceDetected s"
  by (simp add: detectObjects_def)

lemma tick_faceDetected:
  "faceDetected (tick e ob s) =
     (if isFaceCaptured s then faceDetected (verifyFace e ob (snd (detectPose e ob s)))
      else faceDetected (snd (detectPose e ob s)))"
  by (simp add: tick_def Let_def detectObjects_faceDetected)

lemma pose_ready_webcam: "pose_ready e \<Longrightarrow> webcam e = Some v \<Longrightarrow> readyState v = 4"
  by (simp add: pose_ready_def)

lemma poses_frame: "poses (frame ps fs g) = ps"
  by (simp add: frame_def)

lemma tick_signals:
  "isFaceCaptured s \<Longrightarrow>
     faceDetected (tick e ob s) = faceDetected (verifyFace e ob (snd (detectPose e ob s))) \<and>
     multiplePeopleDetected (tick e ob s) =
       multiplePeopleDetected (verifyFace e ob (snd (detectPose e ob s))) \<and>
     unauthorizedPerson (tick e ob s) =
       unauthorizedPerson (verifyFace e ob (snd (detectPose e ob s)))"
  by (simp add: tick_def Let_def detectObjects_def)

section \<open>The claims\<close>

text \<open>
  C1. The Alert Prioritizer depends on the six fields of the WarningState only and is
  the specification's table read from the top, the first row that matches giving the
  message: several people, then an unauthorized person, then no face, then a non-empty
  list of forbidden objects, then a drift above 0.02 on either axis, then the empty
  string. In particular, whenever several people are detected the message is the one
  for several people, whatever the other fields hold.
\<close>

theorem prioritizer_first_match:
  "getHighestPriorityWarning s =
     first_match (alert_table (multiplePeopleDetected s) (unauthorizedPerson s) (faceDetected s)
                    (detectedNotAllowedObjects s) (horizontalMovement s) (verticalMovement s))
   \<and> (multiplePeopleDetected s \<longrightarrow> getHighestPriorityWarning s = msg_multiple_people)"
  by (simp add: getHighestPriorityWarning_def alert_table_def)

theorem prioritizer_first_match_witness:
  "multiplePeopleDetected
     (initial_state\<lparr> multiplePeopleDetected := True, unauthorizedPerson := True,
                     detectedNotAllowedObjects := [''cell phone''] \<rparr>)
   \<and> getHighestPriorityWarning
        (initial_state\<lparr> multiplePeopleDetected := True, unauthorizedPerson := True,
                        detectedNotAllowedObjects := [''cell phone''] \<rparr>)
      = msg_multiple_people"
  using prioritizer_first_match
    [of "initial_state\<lparr> multiplePeopleDetected := True, unauthorizedPerson := True,
                         detectedNotAllowedObjects := [''cell phone''] \<rparr>"]
  by (simp add: alert_table_def)

text \<open>
  C2, as the specification states it: if any detected pose is centered, the tick reports
  a centered face. It fails on a frame whose first pose is centered and whose second
  pose is not: the callback assigns the flag for every pose, and \<open>detectPose\<close>
  resolves to false.
\<close>

theorem any_pose_centered_counterexample:
  "pose_ready ready_env \<and>
   nose_center \<in> set (poses (frame [nose_center, nose_corner] [] 100)) \<and>
   noseCentered nose_center \<and>
   fst (detectPose ready_env (frame [nose_center, nose_corner] [] 100) initial_state) = Some False"
  by (simp add: ready_env_pose_ready frame_def nose_center_centered nose_corner_not_centered
      detectPose_def pose_loop_def pose_step_def Let_def)

text \<open>
  C2, amended: on a frame with at least one pose, \<open>detectPose\<close> resolves to whether the
  last pose of the sequence is centered; and if any pose is centered, the stored
  reference position after the tick is the position of the last centered pose.
\<close>

theorem detectPose_last_pose:
  assumes "pose_ready e" and "poses ob \<noteq> []"
  shows "fst (detectPose e ob s) = Some (noseCentered (last (poses ob))) \<and>
         ((\<exists>p \<in> set (poses ob). noseCentered p) \<longrightarrow>
           referenceNosePosition (snd (detectPose e ob s)) =
             Some (last (filter noseCentered (poses ob))))"
  using assms
  by (simp add: detectPose_def Let_def isFaceCentered_last stored_reference_loop)

theorem detectPose_last_pose_witness:
  "pose_ready ready_env \<and> poses (frame [nose_center, nose_corner] [] 100) \<noteq> [] \<and>
   (\<exists>p \<in> set (poses (frame [nose_center, nose_corner] [] 100)). noseCentered p) \<and>
   fst (detectPose ready_env (frame [nose_center, nose_corner] [] 100) initial_state) = Some False \<and>
   referenceNosePosition
     (snd (detectPose ready_env (frame [nose_center, nose_corner] [] 100) initial_state))
     = Some nose_center"
  using detectPose_last_pose [of ready_env "frame [nose_center, nose_corner] [] 100" initial_state]
  by (simp add: ready_env_pose_ready frame_def nose_center_centered nose_corner_not_centered)

text \<open>
  C3. The flag that the callback computes for a nose is true exactly when the nose is
  nearer than 0.08 to (0.5, 0.5) on both axes, that is, strictly between 0.42 and 0.58 on
  each; on a frame with one pose this is what \<open>detectPose\<close> resolves to; and a nose
  whose distance is exactly 0.08 on an axis is not centered.
\<close>

theorem centering_predicate:
  "(isFaceCentered (pose_step a nose) \<longleftrightarrow>
      \<bar>px nose - 0.5\<bar> < 0.08 \<and> \<bar>py nose - 0.5\<bar> < 0.08) \<and>
   (isFaceCentered (pose_step a nose) \<longleftrightarrow>
      0.42 < px nose \<and> px nose < 0.58 \<and> 0.42 < py nose \<and> py nose < 0.58) \<and>
   (pose_ready e \<longrightarrow> fst (detectPose e (ob\<lparr> poses := [nose] \<rparr>) s) = Some (noseCentered nose)) \<and>
   (\<bar>px nose - 0.5\<bar> = 0.08 \<or> \<bar>py nose - 0.5\<bar> = 0.08 \<longrightarrow> \<not> isFaceCentered (pose_step a nose))"
proof -
  have c: "isFaceCentered (pose_step a nose) = noseCentered nose"
    by (simp add: pose_step_def Let_def)
  have d: "noseCentered nose \<longleftrightarrow> \<bar>px nose - 0.5\<bar> < 0.08 \<and> \<bar>py nose - 0.5\<bar> < 0.08"
    by (simp add: noseCentered_def centerX_def centerY_def tolerance_def)
  have b: "\<bar>px nose - 0.5\<bar> = 0.08 \<or> \<bar>py nose - 0.5\<bar> = 0.08 \<longrightarrow> \<not> noseCentered nose"
    unfolding d by linarith
  have p: "pose_ready e \<longrightarrow> fst (detectPose e (ob\<lparr> poses := [nose] \<rparr>) s) = Some (noseCentered nose)"
    by (simp add: detectPose_def Let_def isFaceCentered_last)
  from c d b p centered_iff [of nose] show ?thesis by simp
qed

theorem centering_predicate_witness:
  "pose_ready ready_env \<and>
   \<bar>px \<lparr> px = 0.58, py = 0.5 \<rparr> - 0.5\<bar> = (0.08 :: real) \<and>
   \<not> isFaceCentered
       (pose_step \<lparr> isFaceCentered = False, stored_reference = None, horizontal = 0,
                    vertical = 0 \<rparr> \<lparr> px = 0.58, py = 0.5 \<rparr>) \<and>
   fst (detectPose ready_env ((frame [] [] 100)\<lparr> poses := [\<lparr> px = 0.58, py = 0.5 \<rparr>] \<rparr>)
          initial_state) = Some False \<and>
   fst (detectPose ready_env ((frame [] [] 100)\<lparr> poses := [\<lparr> px = 0.57, py = 0.43 \<rparr>] \<rparr>)
          initial_state) = Some True"
  using
    centering_predicate
      [of "\<lparr> isFaceCentered = False, stored_reference = None, horizontal = 0, vertical = 0 \<rparr>"
          "\<lparr> px = 0.58, py = 0.5 \<rparr>" ready_env "frame [] [] 100" initial_state]
    centering_predicate
      [of "\<lparr> isFaceCentered = False, stored_reference = None, horizontal = 0, vertical = 0 \<rparr>"
          "\<lparr> px = 0.57, py = 0.43 \<rparr>" ready_env "frame [] [] 100" initial_state]
  by (simp add: ready_env_pose_ready centered_iff)

text \<open>
  C4. The descriptor is meant to be stored at most once: line 66 returns when
  \<open>faceCaptured\<close> is set (its comment: prevent multiple captures). But the flag is set
  only at lines 94-96, after the awaits. Two presses less than 300 ms apart, on
  centered, well lit frames with one face each, both pass line 66 and both store their
  descriptor: the stored descriptor ends as the one of the second press.
\<close>

theorem overlapping_captures_store_twice:
  "faceCaptured initial_state = False \<and>
   isFaceCaptured
     (snd (captureFace_call ready_env (frame [nose_center] [face_with (Some [1])] 100)
             initial_state)) = False \<and>
   fst (two_presses ready_env (frame [nose_center] [face_with (Some [1])] 100)
          (frame [nose_center] [face_with (Some [2])] 100) initial_state) =
     (Captured (Some [1]), Captured (Some [2])) \<and>
   capturedFace
     (snd (two_presses ready_env (frame [nose_center] [face_with (Some [1])] 100)
             (frame [nose_center] [face_with (Some [2])] 100) initial_state)) = Some [2]"
proof -
  have c: "captureFace_call ready_env (frame [nose_center] fs 100) s =
             (Some (Some True), snd (detectPose ready_env (frame [nose_center] fs 100) s))"
    if "\<not> faceCaptured s" for fs s
    using that by (simp add: captureFace_call_def detectPose_center)
  have r: "captureFace_resume ready_env (frame [nose_center] [face_with d] 100) (Some (Some True)) s =
             (Captured d,
              (store_capture (face_with d) s)
                \<lparr> faceLandmarks := Some [], headMovementStatus := msg_captured \<rparr>)" for d s
    unfolding captureFace_resume_def getBrightness_grey
    by (simp add: ready_env_def frame_def face_with_def)
  have n: "\<not> faceCaptured initial_state"
    by (simp add: initial_state_def)
  have n2: "\<not> faceCaptured (snd (detectPose ready_env (frame [nose_center] fs 100) initial_state))"
    for fs
    by (simp add: detectPose_keeps n)
  have i: "\<not> isFaceCaptured (snd (detectPose ready_env (frame [nose_center] fs 100) initial_state))"
    for fs
    by (simp add: detectPose_keeps initial_state_def)
  show ?thesis
    by (simp add: two_presses_def c n n2 i r store_capture_def descriptor_face_with)
qed

text \<open>
  C5, as stated: a capture attempted while the head is not centered leaves the session
  state unchanged. It fails on a frame whose first pose is centered and whose last pose
  is not, with a stored reference position: the attempt ends as NoCenteredFace, and the
  \<open>detectPose\<close> that it has run has replaced the stored reference.
\<close>

theorem failed_capture_changes_state_counterexample:
  "faceCaptured (initial_state\<lparr> referenceNosePosition := Some \<lparr> px = 0.45, py = 0.45 \<rparr> \<rparr>) = False \<and>
   noseCentered (last (poses (frame [nose_center, nose_corner] [] 100))) = False \<and>
   fst (captureFace ready_env (frame [nose_center, nose_corner] [] 100)
          (initial_state\<lparr> referenceNosePosition := Some \<lparr> px = 0.45, py = 0.45 \<rparr> \<rparr>)) =
     NoCenteredFace \<and>
   referenceNosePosition
     (snd (captureFace ready_env (frame [nose_center, nose_corner] [] 100)
             (initial_state\<lparr> referenceNosePosition := Some \<lparr> px = 0.45, py = 0.45 \<rparr> \<rparr>))) =
     Some nose_center \<and>
   nose_center \<noteq> \<lparr> px = 0.45, py = 0.45 \<rparr>"
  by (simp add: captureFace_def detectPose_def ready_env_pose_ready frame_def pose_loop_def
      pose_step_def Let_def nose_center_centered nose_corner_not_centered initial_state_def)
     (simp add: nose_center_def)

text \<open>
  C5, amended: a request made before any capture, on a frame with no pose or whose
  last pose is not centered, ends as NoCenteredFace: the stored descriptor, the two
  captured flags and the stored face landmarks are as before. The rest of the state is
  what the \<open>detectPose\<close> run by the request leaves (the per-tick signals and the stored
  reference position, written as on a tick), with the alignment message.
\<close>

theorem capture_not_centered:
  assumes "\<not> faceCaptured s" and "poses ob = [] \<or> \<not> noseCentered (last (poses ob))"
  shows "captureFace e ob s =
           (NoCenteredFace, (snd (detectPose e ob s))\<lparr> headMovementStatus := msg_align \<rparr>) \<and>
         capturedFace (snd (captureFace e ob s)) = capturedFace s \<and>
         \<not> faceCaptured (snd (captureFace e ob s)) \<and>
         isFaceCaptured (snd (captureFace e ob s)) = isFaceCaptured s \<and>
         faceLandmarks (snd (captureFace e ob s)) = faceLandmarks s"
proof -
  obtain c s1 where dp: "detectPose e ob s = (c, s1)"
    by (cases "detectPose e ob s")
  from detectPose_not_centered [OF assms(2), of e s] dp have c: "c \<noteq> Some True"
    by simp
  from detectPose_keeps [of e ob s] dp
  have k: "capturedFace s1 = capturedFace s" "faceCaptured s1 = faceCaptured s"
    "isFaceCaptured s1 = isFaceCaptured s" "faceLandmarks s1 = faceLandmarks s"
    by simp_all
  from assms(1) c k show ?thesis
    by (simp add: captureFace_def dp)
qed

theorem capture_not_centered_witness:
  "faceCaptured initial_state = False \<and>
   noseCentered (last (poses (frame [nose_corner] [face_with (Some [1])] 100))) = False \<and>
   fst (captureFace ready_env (frame [nose_corner] [face_with (Some [1])] 100) initial_state)
     = NoCenteredFace \<and>
   capturedFace
     (snd (captureFace ready_env (frame [nose_corner] [face_with (Some [1])] 100) initial_state))
     = None"
proof -
  have a: "\<not> faceCaptured initial_state"
    by (simp add: initial_state_def)
  have n: "\<not> noseCentered (last (poses (frame [nose_corner] [face_with (Some [1])] 100)))"
    by (simp add: poses_frame nose_corner_not_centered)
  then have b: "poses (frame [nose_corner] [face_with (Some [1])] 100) = [] \<or>
                \<not> noseCentered (last (poses (frame [nose_corner] [face_with (Some [1])] 100)))"
    by simp
  note t = capture_not_centered [OF a b, of ready_env]
  have c: "capturedFace initial_state = None"
    by (simp add: initial_state_def)
  from t have "fst (captureFace ready_env (frame [nose_corner] [face_with (Some [1])] 100)
                      initial_state) = NoCenteredFace"
    by simp
  moreover from t [THEN conjunct2, THEN conjunct1] c have "capturedFace
     (snd (captureFace ready_env (frame [nose_corner] [face_with (Some [1])] 100) initial_state))
     = None"
    by simp
  ultimately show ?thesis using a n by simp
qed

text \<open>
  C6. In the version that measures the lighting, a request that reaches the measurement
  (nothing captured yet, the pose evaluation resolved to centered) with a brightness
  below 50 or above 200 ends as PoorLighting with the message for low or for high
  light, and stores nothing; with a brightness from 50 to 200 it goes on to the face
  detection, and captures when a face is found.
\<close>

theorem capture_lighting_gate:
  assumes "\<not> faceCaptured s" and "fst (detectPose e ob s) = Some True"
  shows "(getBrightness (imageData ob) < 50 \<or> getBrightness (imageData ob) > 200 \<longrightarrow>
            fst (captureFace e ob s) = PoorLighting \<and>
            capturedFace (snd (captureFace e ob s)) = capturedFace s \<and>
            \<not> faceCaptured (snd (captureFace e ob s)) \<and>
            isFaceCaptured (snd (captureFace e ob s)) = isFaceCaptured s \<and>
            faceLandmarks (snd (captureFace e ob s)) = faceLandmarks s \<and>
            headMovementStatus (snd (captureFace e ob s)) =
              (if getBrightness (imageData ob) < 50 then msg_low_light else msg_high_light)) \<and>
         (50 \<le> getBrightness (imageData ob) \<and> getBrightness (imageData ob) \<le> 200 \<longrightarrow>
            fst (captureFace e ob s) =
              (case singleFace ob of None \<Rightarrow> NoFaceDetected | Some f \<Rightarrow> Captured (descriptor f)))"
proof -
  obtain c s1 where dp: "detectPose e ob s = (c, s1)"
    by (cases "detectPose e ob s")
  from assms(2) dp have c: "c = Some True" by simp
  from assms(2) have w: "webcam e \<noteq> None"
    by (auto simp add: detectPose_def pose_ready_def split: if_splits option.splits)
  from detectPose_keeps [of e ob s] dp
  have k: "capturedFace s1 = capturedFace s" "faceCaptured s1 = faceCaptured s"
    "isFaceCaptured s1 = isFaceCaptured s" "faceLandmarks s1 = faceLandmarks s"
    by simp_all
  from assms(1) c w k show ?thesis
    by (auto simp add: captureFace_def dp Let_def split: option.split)
qed

theorem capture_lighting_gate_witness:
  "\<not> faceCaptured initial_state \<and>
   fst (detectPose ready_env (frame [nose_center] [face_with (Some [1])] 10) initial_state)
     = Some True \<and>
   getBrightness (imageData (frame [nose_center] [face_with (Some [1])] 10)) < 50 \<and>
   fst (captureFace ready_env (frame [nose_center] [face_with (Some [1])] 10) initial_state)
     = PoorLighting \<and>
   capturedFace
     (snd (captureFace ready_env (frame [nose_center] [face_with (Some [1])] 10) initial_state))
     = None \<and>
   fst (detectPose ready_env (frame [nose_center] [face_with (Some [1])] 50) initial_state)
     = Some True \<and>
   50 \<le> getBrightness (imageData (frame [nose_center] [face_with (Some [1])] 50)) \<and>
   getBrightness (imageData (frame [nose_center] [face_with (Some [1])] 50)) \<le> 200 \<and>
   fst (captureFace ready_env (frame [nose_center] [face_with (Some [1])] 50) initial_state)
     = Captured (Some [1])"
  using capture_lighting_gate
      [of initial_state ready_env "frame [nose_center] [face_with (Some [1])] 10"]
    capture_lighting_gate
      [of initial_state ready_env "frame [nose_center] [face_with (Some [1])] 50"]
  by (simp add: detectPose_center getBrightness_grey)
     (simp add: initial_state_def frame_def face_with_def)

text \<open>
  C7. When identity verification reaches the comparison, \<open>unauthorizedPerson\<close> is set
  to true exactly when the Euclidean distance between the stored descriptor and the
  descriptor of the selected face is greater than 0.6; a distance of 0.6 is not flagged,
  a distance of 0.61 is.
\<close>

theorem unauthorized_threshold:
  assumes "capturedFace s = Some captured" and "webcam e = Some v"
    and "ssdMobilenetv1_params e" and "readyState v = 4"
    and "centeredFace v (faces ob) = Some cf" and "descriptor cf = Some d"
    and "euclideanDistance captured d = Some distance"
  shows "unauthorizedPerson (verifyFace e ob s) \<longleftrightarrow> distance > 0.6"
  using assms by (simp add: verifyFace_def compareFace_def)

theorem unauthorized_threshold_witness:
  "\<not> unauthorizedPerson
       (verifyFace ready_env (frame [nose_center] [face_with (Some [0.6])] 100) monitoring_state) \<and>
   euclideanDistance [0] [0.6] = Some 0.6 \<and>
   unauthorizedPerson
       (verifyFace ready_env (frame [nose_center] [face_with (Some [0.61])] 100) monitoring_state) \<and>
   euclideanDistance [0] [0.61] = Some 0.61"
  using
    unauthorized_threshold
      [of monitoring_state "[0]" ready_env "\<lparr> readyState = 4, videoWidth = 640, videoHeight = 480 \<rparr>"
          "frame [nose_center] [face_with (Some [0.6])] 100" "face_with (Some [0.6])" "[0.6]" "0.6"]
    unauthorized_threshold
      [of monitoring_state "[0]" ready_env "\<lparr> readyState = 4, videoWidth = 640, videoHeight = 480 \<rparr>"
          "frame [nose_center] [face_with (Some [0.61])] 100" "face_with (Some [0.61])" "[0.61]" "0.61"]
  by (simp add: euclideanDistance_single centeredFace_single monitoring_state_def ready_env_def
      frame_def face_with_def)

text \<open>
  C8. When identity verification runs on a frame with at least one face, the face whose
  descriptor it compares is a detected face whose box centre has the least sum of
  horizontal and vertical distances to the middle of the frame; with two faces at
  distances 0.1 and 0.3, in either order, it is the one at 0.1.
\<close>

theorem verifyFace_nearest_face:
  assumes "capturedFace s = Some captured" and "webcam e = Some v"
    and "ssdMobilenetv1_params e" and "readyState v = 4" and "faces ob \<noteq> []"
  shows "(\<exists>f. f \<in> set (faces ob) \<and>
              (\<forall>g \<in> set (faces ob). centerOffset v f \<le> centerOffset v g) \<and>
              verifyFace e ob s = compareFace captured f s) \<and>
         (centerOffset v f1 = 0.1 \<and> centerOffset v f2 = 0.3 \<and>
          (faces ob = [f1, f2] \<or> faces ob = [f2, f1]) \<longrightarrow>
              verifyFace e ob s = compareFace captured f1 s)"
proof -
  from centeredFace_least [OF assms(5), of v] obtain f where
    f: "centeredFace v (faces ob) = Some f" "f \<in> set (faces ob)"
       "\<forall>g \<in> set (faces ob). centerOffset v f \<le> centerOffset v g"
    by blast
  from assms f(1) have "verifyFace e ob s = compareFace captured f s"
    by (simp add: verifyFace_def)
  with f(2,3) have a: "\<exists>f. f \<in> set (faces ob) \<and>
              (\<forall>g \<in> set (faces ob). centerOffset v f \<le> centerOffset v g) \<and>
              verifyFace e ob s = compareFace captured f s"
    by blast
  have b: "verifyFace e ob s = compareFace captured f1 s"
    if "centerOffset v f1 = 0.1" "centerOffset v f2 = 0.3"
       "faces ob = [f1, f2] \<or> faces ob = [f2, f1]"
  proof -
    from that have "centeredFace v (faces ob) = Some f1"
      by (auto simp add: centeredFace_def closer_def)
    with assms show ?thesis by (simp add: verifyFace_def)
  qed
  from a b show ?thesis by blast
qed

theorem verifyFace_nearest_face_witness:
  "capturedFace monitoring_state = Some [0] \<and>
   webcam ready_env = Some \<lparr> readyState = 4, videoWidth = 640, videoHeight = 480 \<rparr> \<and>
   ssdMobilenetv1_params ready_env \<and>
   faces (frame [nose_center] [face_offset 0.3 (Some [1]), face_offset 0.1 (Some [0])] 100) \<noteq> [] \<and>
   centerOffset \<lparr> readyState = 4, videoWidth = 640, videoHeight = 480 \<rparr>
     (face_offset 0.1 (Some [0])) = 0.1 \<and>
   centerOffset \<lparr> readyState = 4, videoWidth = 640, videoHeight = 480 \<rparr>
     (face_offset 0.3 (Some [1])) = 0.3 \<and>
   verifyFace ready_env
     (frame [nose_center] [face_offset 0.3 (Some [1]), face_offset 0.1 (Some [0])] 100)
     monitoring_state =
   compareFace [0] (face_offset 0.1 (Some [0])) monitoring_state"
proof -
  have c: "capturedFace monitoring_state = Some [0]"
    by (simp add: monitoring_state_def)
  have w: "webcam ready_env = Some \<lparr> readyState = 4, videoWidth = 640, videoHeight = 480 \<rparr>"
    and p: "ssdMobilenetv1_params ready_env"
    by (simp_all add: ready_env_def)
  have r: "readyState \<lparr> readyState = 4, videoWidth = 640, videoHeight = 480 \<rparr> = 4"
    by simp
  have f: "faces (frame [nose_center] [face_offset 0.3 (Some [1]), face_offset 0.1 (Some [0])] 100)
             = [face_offset 0.3 (Some [1]), face_offset 0.1 (Some [0])]"
    by (simp add: frame_def)
  have n: "faces (frame [nose_center] [face_offset 0.3 (Some [1]), face_offset 0.1 (Some [0])] 100)
             \<noteq> []"
    unfolding f by simp
  have o1: "centerOffset \<lparr> readyState = 4, videoWidth = 640, videoHeight = 480 \<rparr>
              (face_offset 0.1 (Some [0])) = 0.1"
    and o3: "centerOffset \<lparr> readyState = 4, videoWidth = 640, videoHeight = 480 \<rparr>
              (face_offset 0.3 (Some [1])) = 0.3"
    by (simp_all add: centerOffset_face_offset)
  from verifyFace_nearest_face [OF c w p r n,
      of "face_offset 0.1 (Some [0])" "face_offset 0.3 (Some [1])"] o1 o3 f
  have "verifyFace ready_env
     (frame [nose_center] [face_offset 0.3 (Some [1]), face_offset 0.1 (Some [0])] 100)
     monitoring_state =
   compareFace [0] (face_offset 0.1 (Some [0])) monitoring_state"
    by blast
  with c w p n o1 o3 show ?thesis by blast
qed

text \<open>
  C9, as the specification states it: on a tick where no detected face has a usable
  descriptor, \<open>unauthorizedPerson\<close> is false and is not carried over from an earlier
  tick. It fails when an earlier tick has set it: \<open>verifyFace\<close> returns after
  \<open>setFaceDetected(false)\<close> and leaves \<open>unauthorizedPerson\<close> true.
\<close>

theorem unauthorized_carried_over_counterexample:
  "faces (frame [nose_center] [face_with None] 100) = [face_with None] \<and>
   descriptor (face_with None) = None \<and>
   unauthorizedPerson
     (verifyFace ready_env (frame [nose_center] [face_with None] 100)
        (monitoring_state\<lparr> unauthorizedPerson := True \<rparr>)) = True"
proof -
  have "verifyFace ready_env (frame [nose_center] [face_with None] 100)
          (monitoring_state\<lparr> unauthorizedPerson := True \<rparr>) =
        compareFace [0] (face_with None) (monitoring_state\<lparr> unauthorizedPerson := True \<rparr>)"
    by (rule verifyFace_single [OF monitoring_guards faces_frame])
  then show ?thesis
    by (simp add: compareFace_no_descriptor descriptor_face_with faces_frame)
qed

text \<open>
  C9, amended: when identity verification runs on a frame with at least one detected
  face and no detected face has a usable descriptor, it sets \<open>faceDetected\<close> to false,
  computes no distance and leaves everything else, \<open>unauthorizedPerson\<close> included, as
  the earlier ticks left it.
\<close>

theorem verifyFace_no_descriptor:
  assumes "capturedFace s = Some captured" and "webcam e = Some v"
    and "ssdMobilenetv1_params e" and "readyState v = 4"
    and "faces ob \<noteq> []" and "\<forall>f \<in> set (faces ob). descriptor f = None"
  shows "verifyFace e ob s = s\<lparr> faceDetected := False \<rparr> \<and>
         \<not> faceDetected (verifyFace e ob s) \<and>
         unauthorizedPerson (verifyFace e ob s) = unauthorizedPerson s"
proof -
  from centeredFace_least [OF assms(5), of v] obtain f where
    f: "centeredFace v (faces ob) = Some f" "f \<in> set (faces ob)"
    by blast
  with assms(6) have "descriptor f = None" by simp
  with assms f(1) show ?thesis
    by (simp add: verifyFace_def compareFace_no_descriptor)
qed

theorem verifyFace_no_descriptor_witness:
  "capturedFace (monitoring_state\<lparr> unauthorizedPerson := True \<rparr>) = Some [0] \<and>
   faces (frame [nose_center] [face_with None] 100) = [face_with None] \<and>
   descriptor (face_with None) = None \<and>
   verifyFace ready_env (frame [nose_center] [face_with None] 100)
     (monitoring_state\<lparr> unauthorizedPerson := True \<rparr>) =
   (monitoring_state\<lparr> unauthorizedPerson := True \<rparr>)\<lparr> faceDetected := False \<rparr>"
proof -
  have n: "faces (frame [nose_center] [face_with None] 100) \<noteq> []"
    by (simp add: faces_frame)
  have d: "\<forall>f \<in> set (faces (frame [nose_center] [face_with None] 100)). descriptor f = None"
    by (simp add: faces_frame descriptor_face_with)
  from verifyFace_no_descriptor [OF monitoring_guards n d, of True] monitoring_guards(1) [of True]
  show ?thesis by (simp add: faces_frame descriptor_face_with)
qed

text \<open>
  C10, as stated: on a tick with at least one pose, the value that the pose evaluation
  gives to \<open>faceDetected\<close> overwrites the one of identity verification on the same
  tick, so that the no-face warning depends on the poses only. It fails on a frame with
  a pose and a face without descriptor, once a face is captured: \<open>verifyFace\<close> is
  called after \<open>detectPose\<close>, its \<open>setFaceDetected(false)\<close> is the later one, and the
  warning computed from the resulting state is the no-face warning.
\<close>

theorem pose_overwrites_counterexample:
  "pose_ready ready_env \<and>
   poses (frame [nose_center] [face_with None] 100) = [nose_center] \<and>
   descriptor (face_with None) = None \<and>
   faceDetected (tick ready_env (frame [nose_center] [face_with None] 100) monitoring_state)
     = False \<and>
   getHighestPriorityWarning
     (tick ready_env (frame [nose_center] [face_with None] 100) monitoring_state) = msg_no_face"
proof -
  let ?F = "frame [nose_center] [face_with None] 100"
  let ?s1 = "snd (detectPose ready_env ?F monitoring_state)"
  have c: "capturedFace ?s1 = Some [0]"
    by (simp add: detectPose_keeps monitoring_state_def)
  have u: "unauthorizedPerson ?s1 = False"
    by (simp add: detectPose_keeps monitoring_state_def initial_state_def)
  have m: "multiplePeopleDetected ?s1 = False"
    by (simp add: detectPose_center)
  have "verifyFace ready_env ?F ?s1 = compareFace [0] (face_with None) ?s1"
    by (rule verifyFace_single [OF c monitoring_guards(2,3,4) faces_frame])
  then have v: "verifyFace ready_env ?F ?s1 = ?s1\<lparr> faceDetected := False \<rparr>"
    by (simp add: compareFace_no_descriptor descriptor_face_with)
  have i: "isFaceCaptured monitoring_state"
    by (simp add: monitoring_state_def)
  from tick_signals [OF i, of ready_env ?F] v u m
  have t: "faceDetected (tick ready_env ?F monitoring_state) = False"
          "multiplePeopleDetected (tick ready_env ?F monitoring_state) = False"
          "unauthorizedPerson (tick ready_env ?F monitoring_state) = False"
    by simp_all
  from t have "getHighestPriorityWarning (tick ready_env ?F monitoring_state) = msg_no_face"
    by (simp add: getHighestPriorityWarning_def)
  with t(1) show ?thesis
    by (simp add: ready_env_pose_ready poses_frame descriptor_face_with)
qed

text \<open>
  C10, amended: on a tick with at least one pose, \<open>detectPose\<close> sets \<open>faceDetected\<close>
  to true whatever the faces are and whatever the value was. That value stands at the
  end of the tick when identity verification sets nothing (no face captured yet, the
  face net not loaded, or no face in the frame); when identity verification reaches
  the selected face, its value stands: \<open>faceDetected\<close> is whether that face has a
  descriptor.
\<close>

theorem pose_sets_faceDetected:
  assumes "pose_ready e" and "poses ob \<noteq> []"
  shows "faceDetected (snd (detectPose e ob s)) \<and>
         (\<not> isFaceCaptured s \<or> capturedFace s = None \<or> \<not> ssdMobilenetv1_params e \<or>
            faces ob = [] \<longrightarrow> faceDetected (tick e ob s)) \<and>
         (isFaceCaptured s \<and> capturedFace s \<noteq> None \<and> ssdMobilenetv1_params e \<and>
            webcam e = Some v \<and> centeredFace v (faces ob) = Some f \<longrightarrow>
              faceDetected (tick e ob s) = (descriptor f \<noteq> None))"
proof -
  let ?s1 = "snd (detectPose e ob s)"
  from assms have d: "faceDetected ?s1"
    by (simp add: detectPose_faceDetected)
  have c: "capturedFace ?s1 = capturedFace s"
    by (simp add: detectPose_keeps)
  have a: "faceDetected (tick e ob s)"
    if h: "\<not> isFaceCaptured s \<or> capturedFace s = None \<or> \<not> ssdMobilenetv1_params e \<or>
           faces ob = []"
  proof (cases "isFaceCaptured s")
    case False
    with d show ?thesis by (simp add: tick_faceDetected)
  next
    case True
    with h have "capturedFace ?s1 = None \<or> \<not> ssdMobilenetv1_params e \<or> faces ob = []"
      by (simp add: c)
    then have "verifyFace e ob ?s1 = ?s1"
      using verifyFace_idle [of ?s1 e ob] verifyFace_zero_faces [of ob e ?s1] by blast
    with True d show ?thesis by (simp add: tick_faceDetected)
  qed
  have b: "faceDetected (tick e ob s) = (descriptor f \<noteq> None)"
    if h: "isFaceCaptured s \<and> capturedFace s \<noteq> None \<and> ssdMobilenetv1_params e \<and>
           webcam e = Some v \<and> centeredFace v (faces ob) = Some f"
  proof -
    from h obtain captured where k: "capturedFace ?s1 = Some captured"
      by (auto simp add: c)
    from h have r: "readyState v = 4"
      using pose_ready_webcam [OF assms(1)] by simp
    from h have "verifyFace e ob ?s1 = compareFace captured f ?s1"
      using verifyFace_selected [OF k _ _ r] by simp
    with h show ?thesis
      by (simp add: tick_faceDetected compareFace_faceDetected)
  qed
  from d a b show ?thesis by blast
qed

theorem pose_sets_faceDetected_witness:
  "pose_ready ready_env \<and> poses (frame [nose_center] [face_with None] 100) \<noteq> [] \<and>
   faceDetected (snd (detectPose ready_env (frame [nose_center] [face_with None] 100)
                        monitoring_state)) \<and>
   faceDetected (tick ready_env (frame [nose_center] [face_with None] 100) initial_state) \<and>
   \<not> faceDetected (tick ready_env (frame [nose_center] [face_with None] 100) monitoring_state)"
proof -
  have p: "poses (frame [nose_center] [face_with None] 100) \<noteq> []"
    by (simp add: poses_frame)
  have n: "\<not> isFaceCaptured initial_state"
    by (simp add: initial_state_def)
  have m: "isFaceCaptured monitoring_state \<and> capturedFace monitoring_state \<noteq> None \<and>
           ssdMobilenetv1_params ready_env \<and>
           webcam ready_env = Some \<lparr> readyState = 4, videoWidth = 640, videoHeight = 480 \<rparr> \<and>
           centeredFace \<lparr> readyState = 4, videoWidth = 640, videoHeight = 480 \<rparr>
             (faces (frame [nose_center] [face_with None] 100)) = Some (face_with None)"
    by (simp add: monitoring_state_def ready_env_def faces_frame centeredFace_single)
  have d: "descriptor (face_with None) = None"
    by (simp add: descriptor_face_with)
  from pose_sets_faceDetected [where s = initial_state, OF ready_env_pose_ready p] n
  have a: "faceDetected (tick ready_env (frame [nose_center] [face_with None] 100) initial_state)"
    by blast
  from pose_sets_faceDetected [where s = monitoring_state and f = "face_with None"
      and v = "\<lparr> readyState = 4, videoWidth = 640, videoHeight = 480 \<rparr>",
      OF ready_env_pose_ready p] m
  have b: "faceDetected (snd (detectPose ready_env (frame [nose_center] [face_with None] 100)
                        monitoring_state)) \<and>
           faceDetected (tick ready_env (frame [nose_center] [face_with None] 100)
                             monitoring_state) = (descriptor (face_with None) \<noteq> None)"
    by blast
  from ready_env_pose_ready p a b d show ?thesis by simp
qed

end
